theory Spec2Isabelle
  imports Main
begin

section \<open>Key normalizer: \<open>cleanUrl\<close> (src/utils/url.ts)\<close>

text \<open>
  The source applies three regular-expression replacements in a row:
  \<^verbatim>\<open>url.replace(/^https?:\/\//, '')\<close>, then \<^verbatim>\<open>.replace(/^\/|\/$/g, '')\<close>, then
  \<^verbatim>\<open>.replace(/\./g, '-')\<close>. Each replacement is modelled by the function that the regular
  expression denotes on a string (a list of characters).
\<close>

text \<open>\<^verbatim>\<open>/^https?:\/\//\<close>, no flag: one match at most, anchored at index 0.\<close>

definition strip_scheme :: "string \<Rightarrow> string" where
  "strip_scheme url =
     (if take 8 url = ''https://'' then drop 8 url
      else if take 7 url = ''http://'' then drop 7 url
      else url)"

text \<open>
  \<^verbatim>\<open>/^\/|\/$/g\<close>: the global flag scans the string from left to right. At each index the
  first alternative matches a slash at index 0 (the flag \<open>at_start\<close>), the second a slash
  that is the last character; a matched slash is replaced by the empty string and the
  scan goes on behind it.
\<close>

fun strip_slashes :: "bool \<Rightarrow> string \<Rightarrow> string" where
  "strip_slashes at_start [] = []"
| "strip_slashes at_start (c # cs) =
     (if c = CHR ''/'' \<and> (at_start \<or> cs = []) then strip_slashes False cs
      else c # strip_slashes False cs)"

text \<open>\<^verbatim>\<open>/\./g\<close>: every dot, replaced by a dash.\<close>

definition replace_dots :: "string \<Rightarrow> string" where
  "replace_dots s = map (\<lambda>c. if c = CHR ''.'' then CHR ''-'' else c) s"

text \<open>The revision of \<open>cleanUrl\<close> with the dot replacement (url.ts, second document).\<close>

definition cleanUrl :: "string \<Rightarrow> string" where
  "cleanUrl url = replace_dots (strip_slashes True (strip_scheme url))"

text \<open>The revision without it (url.ts, first document).\<close>

definition cleanUrl_plain :: "string \<Rightarrow> string" where
  "cleanUrl_plain url = strip_slashes True (strip_scheme url)"

subsection \<open>The normalizer as the specification words it\<close>

definition has_scheme :: "string \<Rightarrow> bool" where
  "has_scheme s = (take 7 s = ''http://'' \<or> take 8 s = ''https://'')"

definition leading_slash :: "string \<Rightarrow> bool" where
  "leading_slash s = (s \<noteq> [] \<and> hd s = CHR ''/'')"

definition trailing_slash :: "string \<Rightarrow> bool" where
  "trailing_slash s = (s \<noteq> [] \<and> last s = CHR ''/'')"

definition spec_strip_scheme :: "string \<Rightarrow> string" where
  "spec_strip_scheme s =
     (if take 7 s = ''http://'' then drop 7 s
      else if take 8 s = ''https://'' then drop 8 s
      else s)"

definition spec_strip_leading :: "string \<Rightarrow> string" where
  "spec_strip_leading s = (if leading_slash s then tl s else s)"

definition spec_strip_trailing :: "string \<Rightarrow> string" where
  "spec_strip_trailing s = (if trailing_slash s then butlast s else s)"

fun spec_dots :: "string \<Rightarrow> string" where
  "spec_dots [] = []"
| "spec_dots (c # cs) = (if c = CHR ''.'' then CHR ''-'' # spec_dots cs else c # spec_dots cs)"

definition normalize_spec :: "string \<Rightarrow> string" where
  "normalize_spec raw =
     spec_dots (spec_strip_trailing (spec_strip_leading (spec_strip_scheme raw)))"

text \<open>A key on which no step of the normalizer has anything left to do.\<close>

definition unwrapped :: "string \<Rightarrow> bool" where
  "unwrapped k = (\<not> has_scheme k \<and> \<not> leading_slash k \<and> \<not> trailing_slash k)"

section \<open>Page documents and the \<open>pages\<close> collection (database/models/PageModel)\<close>

text \<open>
  \<open>IPage\<close>: the field \<^verbatim>\<open>_id\<close> (the URL, the key of the record) is \<open>page_id\<close> here, \<^verbatim>\<open>page\<close>
  is the title, and the optional \<^verbatim>\<open>description\<close> is an option.
\<close>

record IPage =
  page_id :: string
  page :: string
  description :: "string option"

text \<open>
  The failures a caller can tell apart: a Mongoose validation error (\<open>InvalidInput\<close>), the
  duplicate-key error of the unique \<^verbatim>\<open>_id\<close> index (\<open>DuplicateKey\<close>), the error
  \<^verbatim>\<open>Page with URL ... does not exist.\<close> thrown by \<open>updatePageUrl\<close> (\<open>NotFound\<close>), and an
  unreachable store (\<open>StoreUnavailable\<close>). The model is of a store that is reachable and
  supports transactions, so no operation below produces \<open>StoreUnavailable\<close>.
\<close>

datatype error = InvalidInput | DuplicateKey | NotFound | StoreUnavailable

text \<open>
  The collection is the list of its documents in insertion order. That no two documents
  share an \<^verbatim>\<open>_id\<close> is not built into the type: it is the invariant \<open>unique_keys\<close>, which
  \<open>insertOne\<close> enforces the way the unique index does.
\<close>

type_synonym collection = "IPage list"

definition unique_keys :: "collection \<Rightarrow> bool" where
  "unique_keys c = distinct (map page_id c)"

subsection \<open>The Mongoose calls the controller makes\<close>

text \<open>\<^verbatim>\<open>PageModel.find()\<close> with no filter.\<close>

definition find_all :: "collection \<Rightarrow> IPage list" where
  "find_all c = c"

text \<open>\<^verbatim>\<open>PageModel.findById(id)\<close>: the first document with that \<^verbatim>\<open>_id\<close>, or null.\<close>

definition findById :: "string \<Rightarrow> collection \<Rightarrow> IPage option" where
  "findById k c = List.find (\<lambda>d. page_id d = k) c"

text \<open>
  \<open>pageSchema\<close>: \<^verbatim>\<open>_id\<close> and \<^verbatim>\<open>page\<close> are \<^verbatim>\<open>{type: String, required: true}\<close>, and the
  \<^verbatim>\<open>required\<close> validator of a string path rejects the empty string; \<^verbatim>\<open>description\<close> is
  \<^verbatim>\<open>required: false\<close>.
\<close>

definition pageSchema_valid :: "IPage \<Rightarrow> bool" where
  "pageSchema_valid d = (page_id d \<noteq> [] \<and> page d \<noteq> [])"

text \<open>The insert the server performs: the unique \<^verbatim>\<open>_id\<close> index rejects a key already taken.\<close>

definition insertOne :: "IPage \<Rightarrow> collection \<Rightarrow> error + collection" where
  "insertOne d c = (if page_id d \<in> set (map page_id c) then Inl DuplicateKey else Inr (c @ [d]))"

text \<open>
  \<^verbatim>\<open>PageModel.create(doc)\<close>: the document is validated against the schema before it is
  saved, and the created document is returned.
\<close>

definition create :: "IPage \<Rightarrow> collection \<Rightarrow> error + (IPage \<times> collection)" where
  "create d c =
     (if \<not> pageSchema_valid d then Inl InvalidInput
      else case insertOne d c of
             Inl err \<Rightarrow> Inl err
           | Inr c' \<Rightarrow> Inr (d, c'))"

fun remove_id :: "string \<Rightarrow> collection \<Rightarrow> collection" where
  "remove_id k [] = []"
| "remove_id k (d # ds) = (if page_id d = k then ds else d # remove_id k ds)"

text \<open>\<^verbatim>\<open>PageModel.findByIdAndDelete(id)\<close>: removes the document found and returns it, or null.\<close>

definition findByIdAndDelete :: "string \<Rightarrow> collection \<Rightarrow> IPage option \<times> collection" where
  "findByIdAndDelete k c = (findById k c, remove_id k c)"

fun update_id :: "string \<Rightarrow> (IPage \<Rightarrow> IPage) \<Rightarrow> collection \<Rightarrow> collection" where
  "update_id k f [] = []"
| "update_id k f (d # ds) = (if page_id d = k then f d # ds else d # update_id k f ds)"

text \<open>
  The update \<^verbatim>\<open>{ page, description }\<close>. What an undefined \<^verbatim>\<open>description\<close> does depends on
  the Mongoose release: the key is either dropped from the update (\<open>omitUndefined\<close>) or
  sets the field to null. The release is not fixed by the sources, so it is a parameter.
\<close>

definition apply_update :: "bool \<Rightarrow> string \<Rightarrow> string option \<Rightarrow> IPage \<Rightarrow> IPage" where
  "apply_update omitUndefined title desc d =
     d\<lparr>page := title,
       description := (case desc of
                         None \<Rightarrow> (if omitUndefined then description d else None)
                       | Some x \<Rightarrow> Some x)\<rparr>"

text \<open>
  \<^verbatim>\<open>PageModel.findByIdAndUpdate(id, { page, description }, { new: true, runValidators: true })\<close>:
  the update validators run on the paths of the update before the query is sent
  (\<^verbatim>\<open>page\<close> is required); there is no upsert; \<^verbatim>\<open>new: true\<close> returns the document as updated.
\<close>

definition findByIdAndUpdate ::
  "bool \<Rightarrow> string \<Rightarrow> string \<Rightarrow> string option \<Rightarrow> collection \<Rightarrow> error + (IPage option \<times> collection)" where
  "findByIdAndUpdate omitUndefined k title desc c =
     (if title = [] then Inl InvalidInput
      else case findById k c of
             None \<Rightarrow> Inr (None, c)
           | Some d \<Rightarrow> Inr (Some (apply_update omitUndefined title desc d),
                            update_id k (apply_update omitUndefined title desc) c))"

subsection \<open>Sessions and transactions\<close>

text \<open>
  While a transaction is open there are two views of the collection: \<open>committed\<close>, which
  every reader outside the session sees, and \<open>working\<close>, which the operations bound to the
  session read and write. Committing publishes the working view, aborting discards it.
\<close>

record transaction =
  committed :: collection
  working :: collection

definition startTransaction :: "collection \<Rightarrow> transaction" where
  "startTransaction c = \<lparr>committed = c, working = c\<rparr>"

definition commitTransaction :: "transaction \<Rightarrow> transaction" where
  "commitTransaction t = t\<lparr>committed := working t\<rparr>"

definition abortTransaction :: "transaction \<Rightarrow> transaction" where
  "abortTransaction t = t\<lparr>working := committed t\<rparr>"

text \<open>\<^verbatim>\<open>PageModel.findByIdAndDelete(id).session(session)\<close>\<close>

definition findByIdAndDelete_session :: "string \<Rightarrow> transaction \<Rightarrow> IPage option \<times> transaction" where
  "findByIdAndDelete_session k t =
     (case findByIdAndDelete k (working t) of
        (deleted, w) \<Rightarrow> (deleted, t\<lparr>working := w\<rparr>))"

text \<open>\<^verbatim>\<open>PageModel.create([doc], { session })\<close>\<close>

definition create_session :: "IPage \<Rightarrow> transaction \<Rightarrow> error + (IPage \<times> transaction)" where
  "create_session d t =
     (case create d (working t) of
        Inl err \<Rightarrow> Inl err
      | Inr (newPage, w) \<Rightarrow> Inr (newPage, t\<lparr>working := w\<rparr>))"

section \<open>\<open>PageController\<close>\<close>

text \<open>
  Every method catches an error only to log it and throw it again, so the error of the
  Mongoose call is the error of the method. A method that writes returns the collection
  after the call next to its result.
\<close>

definition getAll :: "collection \<Rightarrow> IPage list" where
  "getAll c = find_all c"

definition getPageById :: "string \<Rightarrow> collection \<Rightarrow> IPage option" where
  "getPageById pageId c = findById pageId c"

definition createPage ::
  "string \<Rightarrow> string \<Rightarrow> string option \<Rightarrow> collection \<Rightarrow> (error + IPage) \<times> collection" where
  "createPage title url desc c =
     (case create \<lparr>page_id = url, page = title, description = desc\<rparr> c of
        Inl err \<Rightarrow> (Inl err, c)
      | Inr (newPage, c') \<Rightarrow> (Inr newPage, c'))"

definition updatePage ::
  "bool \<Rightarrow> string \<Rightarrow> string \<Rightarrow> string option \<Rightarrow> collection \<Rightarrow> (error + IPage option) \<times> collection" where
  "updatePage omitUndefined pageId title desc c =
     (case findByIdAndUpdate omitUndefined pageId title desc c of
        Inl err \<Rightarrow> (Inl err, c)
      | Inr (updatedPage, c') \<Rightarrow> (Inr updatedPage, c'))"

definition deletePage :: "string \<Rightarrow> collection \<Rightarrow> IPage option \<times> collection" where
  "deletePage pageId c = findByIdAndDelete pageId c"

text \<open>The argument \<open>newPageData\<close> of \<open>updatePageUrl\<close>: \<^verbatim>\<open>{ page, url, description? }\<close>.\<close>

record NewPageData =
  np_page :: string
  np_url :: string
  np_description :: "string option"

text \<open>
  \<open>updatePageUrl\<close>, statement by statement. Next to the result, the run records the state
  of the transaction after each statement that reaches the store: start, delete, create
  (when the delete found a document), and the final commit or abort.
\<close>

definition updatePageUrl_run ::
  "string \<Rightarrow> NewPageData \<Rightarrow> collection \<Rightarrow> (error + IPage) \<times> transaction list" where
  "updatePageUrl_run oldUrl newPageData c =
     (let t0 = startTransaction c in
      case findByIdAndDelete_session oldUrl t0 of
        (None, t1) \<Rightarrow> (Inl NotFound, [t0, t1, abortTransaction t1])
      | (Some deletedPage, t1) \<Rightarrow>
          (case create_session \<lparr>page_id = np_url newPageData, page = np_page newPageData,
                                description = np_description newPageData\<rparr> t1 of
             Inl err \<Rightarrow> (Inl err, [t0, t1, abortTransaction t1])
           | Inr (newPage, t2) \<Rightarrow> (Inr newPage, [t0, t1, t2, commitTransaction t2])))"

text \<open>What the caller gets: the result, and the collection as committed when the call ends.\<close>

definition updatePageUrl ::
  "string \<Rightarrow> NewPageData \<Rightarrow> collection \<Rightarrow> (error + IPage) \<times> collection" where
  "updatePageUrl oldUrl newPageData c =
     (case updatePageUrl_run oldUrl newPageData c of
        (r, ts) \<Rightarrow> (r, committed (last ts)))"

subsection \<open>The operations of the page store, as one type\<close>

datatype operation =
    ListAll
  | GetByKey string
  | Insert string string "string option"
  | Update string string "string option"
  | Delete string
  | RenameKey string NewPageData

text \<open>The collection an operation leaves behind; the reads leave it as it was.\<close>

fun store_after :: "bool \<Rightarrow> operation \<Rightarrow> collection \<Rightarrow> collection" where
  "store_after ou ListAll c = c"
| "store_after ou (GetByKey k) c = c"
| "store_after ou (Insert k title desc) c = snd (createPage title k desc c)"
| "store_after ou (Update k title desc) c = snd (updatePage ou k title desc c)"
| "store_after ou (Delete k) c = snd (deletePage k c)"
| "store_after ou (RenameKey oldKey newData) c = snd (updatePageUrl oldKey newData c)"

section \<open>Properties of the normalizer\<close>

lemma strip_slashes_False: "strip_slashes False s = (if trailing_slash s then butlast s else s)"
  by (induction s) (auto simp: trailing_slash_def)

lemma strip_slashes_True: "strip_slashes True s = spec_strip_trailing (spec_strip_leading s)"
  by (cases s) (auto simp: strip_slashes_False spec_strip_trailing_def spec_strip_leading_def
      leading_slash_def trailing_slash_def)

lemma scheme_exclusive: "take 8 s = ''https://'' \<Longrightarrow> take 7 s \<noteq> ''http://''"
proof -
  assume h: "take 8 s = ''https://''"
  have "take 7 s = take 7 (take 8 s)" by simp
  also have "\<dots> = ''https:/''" by (simp only: h) simp
  finally show ?thesis by simp
qed

lemma strip_scheme_spec: "strip_scheme s = spec_strip_scheme s"
  using scheme_exclusive[of s] by (auto simp: strip_scheme_def spec_strip_scheme_def)

lemma replace_dots_spec: "replace_dots s = spec_dots s"
  by (induction s) (auto simp: replace_dots_def)

lemma length_strip_scheme: "length (strip_scheme s) \<le> length s"
  by (simp add: strip_scheme_def)

lemma strip_scheme_length_iff: "(length (strip_scheme s) = length s) = (\<not> has_scheme s)"
  by (auto simp: strip_scheme_def has_scheme_def)

lemma strip_scheme_id: "\<not> has_scheme s \<Longrightarrow> strip_scheme s = s"
  by (auto simp: strip_scheme_def has_scheme_def)

lemma length_strip_slashes: "length (strip_slashes b s) \<le> length s"
  by (induction b s rule: strip_slashes.induct) auto

lemma strip_slashes_False_length_iff:
  "(length (strip_slashes False s) = length s) = (\<not> trailing_slash s)"
proof (cases "trailing_slash s")
  case True
  then have "s \<noteq> []" by (simp add: trailing_slash_def)
  then have "length (butlast s) < length s" by simp
  with True show ?thesis by (simp add: strip_slashes_False)
next
  case False
  then show ?thesis by (simp add: strip_slashes_False)
qed

lemma strip_slashes_length_iff:
  "(length (strip_slashes True s) = length s) = (\<not> leading_slash s \<and> \<not> trailing_slash s)"
proof (cases s)
  case Nil
  then show ?thesis by (simp add: leading_slash_def trailing_slash_def)
next
  case (Cons c cs)
  show ?thesis
  proof (cases "c = CHR ''/''")
    case True
    have "length (strip_slashes False cs) \<le> length cs" by (rule length_strip_slashes)
    with True Cons show ?thesis by (simp add: leading_slash_def)
  next
    case False
    with Cons show ?thesis
      using strip_slashes_False_length_iff[of cs]
      by (auto simp: leading_slash_def trailing_slash_def)
  qed
qed

lemma strip_slashes_id:
  "\<not> leading_slash s \<Longrightarrow> \<not> trailing_slash s \<Longrightarrow> strip_slashes True s = s"
  by (cases s) (auto simp: strip_slashes_False leading_slash_def trailing_slash_def)

lemma length_replace_dots: "length (replace_dots s) = length s"
  by (simp add: replace_dots_def)

lemma replace_dots_id_iff: "(replace_dots s = s) = (CHR ''.'' \<notin> set s)"
  by (induction s) (auto simp: replace_dots_def)

text \<open>The two revisions of \<open>cleanUrl\<close> differ by the dot replacement only.\<close>

lemma cleanUrl_plain_dots: "cleanUrl url = replace_dots (cleanUrl_plain url)"
  by (simp add: cleanUrl_def cleanUrl_plain_def)

lemma no_dots_cleanUrl: "CHR ''.'' \<notin> set (cleanUrl s)"
  by (auto simp: cleanUrl_def replace_dots_def)

text \<open>The keys that \<open>cleanUrl\<close> returns as they are.\<close>

lemma cleanUrl_fixed_iff: "(cleanUrl k = k) = (unwrapped k \<and> CHR ''.'' \<notin> set k)"
proof
  assume fx: "cleanUrl k = k"
  have "length (cleanUrl k) = length (strip_slashes True (strip_scheme k))"
    by (simp add: cleanUrl_def length_replace_dots)
  with fx have l: "length (strip_slashes True (strip_scheme k)) = length k" by simp
  have "length (strip_scheme k) = length k"
    using l length_strip_slashes[of True "strip_scheme k"] length_strip_scheme[of k] by linarith
  then have ns: "\<not> has_scheme k" by (simp add: strip_scheme_length_iff)
  then have sk: "strip_scheme k = k" by (rule strip_scheme_id)
  from l sk have "length (strip_slashes True k) = length k" by simp
  then have sl: "\<not> leading_slash k \<and> \<not> trailing_slash k" by (simp add: strip_slashes_length_iff)
  then have "strip_slashes True k = k" by (simp add: strip_slashes_id)
  with fx sk have "replace_dots k = k" by (simp add: cleanUrl_def)
  then have "CHR ''.'' \<notin> set k" by (simp add: replace_dots_id_iff)
  with ns sl show "unwrapped k \<and> CHR ''.'' \<notin> set k" by (simp add: unwrapped_def)
next
  assume "unwrapped k \<and> CHR ''.'' \<notin> set k"
  then show "cleanUrl k = k"
    by (simp add: unwrapped_def cleanUrl_def strip_scheme_id strip_slashes_id replace_dots_id_iff)
qed

section \<open>Properties of the collection\<close>

lemma findById_None_iff: "(findById k c = None) = (k \<notin> set (map page_id c))"
  by (induction c) (auto simp: findById_def)

lemma findById_remove_other: "k' \<noteq> k \<Longrightarrow> findById k' (remove_id k c) = findById k' c"
  by (induction c) (auto simp: findById_def)

lemma ids_remove_subset: "set (map page_id (remove_id k c)) \<subseteq> set (map page_id c)"
  by (induction c) auto

lemma unique_keys_remove: "unique_keys c \<Longrightarrow> unique_keys (remove_id k c)"
proof (induction c)
  case Nil
  then show ?case by simp
next
  case (Cons d ds)
  then have "page_id d \<notin> set (map page_id (remove_id k ds))"
    using ids_remove_subset[of k ds] by (auto simp: unique_keys_def)
  with Cons show ?case by (auto simp: unique_keys_def)
qed

lemma findById_remove_same: "unique_keys c \<Longrightarrow> findById k (remove_id k c) = None"
proof (induction c)
  case Nil
  then show ?case by (simp add: findById_def)
next
  case (Cons d ds)
  show ?case
  proof (cases "page_id d = k")
    case True
    with Cons.prems have "k \<notin> set (map page_id ds)" by (auto simp: unique_keys_def)
    with True show ?thesis by (simp add: findById_None_iff)
  next
    case False
    with Cons show ?thesis by (simp add: findById_def unique_keys_def)
  qed
qed

lemma findById_snoc:
  "findById k (c @ [d]) =
     (case findById k c of Some x \<Rightarrow> Some x | None \<Rightarrow> if page_id d = k then Some d else None)"
  by (induction c) (auto simp: findById_def)

lemma ids_update:
  "(\<And>d. page_id (f d) = page_id d) \<Longrightarrow> map page_id (update_id k f c) = map page_id c"
  by (induction c) auto

lemma page_id_apply_update: "page_id (apply_update ou t d x) = page_id x"
  by (simp add: apply_update_def)

lemma update_id_other:
  "i < length c \<Longrightarrow> page_id (c ! i) \<noteq> k \<Longrightarrow> update_id k f c ! i = c ! i"
  by (induction c arbitrary: i) (auto simp: nth_Cons split: nat.splits)

lemma findById_update_other:
  "(\<And>d. page_id (f d) = page_id d) \<Longrightarrow> k' \<noteq> k \<Longrightarrow>
   findById k' (update_id k f c) = findById k' c"
  by (induction c) (auto simp: findById_def)

section \<open>The four ways a run of \<open>updatePageUrl\<close> can go\<close>

lemma run_NotFound:
  "findById oldUrl c = None \<Longrightarrow>
   updatePageUrl_run oldUrl nd c =
     (Inl NotFound,
      [\<lparr>committed = c, working = c\<rparr>, \<lparr>committed = c, working = remove_id oldUrl c\<rparr>,
       \<lparr>committed = c, working = c\<rparr>])"
  by (simp add: updatePageUrl_run_def startTransaction_def findByIdAndDelete_session_def
      findByIdAndDelete_def abortTransaction_def Let_def)

lemma run_Invalid:
  "findById oldUrl c = Some a \<Longrightarrow> np_url nd = [] \<or> np_page nd = [] \<Longrightarrow>
   updatePageUrl_run oldUrl nd c =
     (Inl InvalidInput,
      [\<lparr>committed = c, working = c\<rparr>, \<lparr>committed = c, working = remove_id oldUrl c\<rparr>,
       \<lparr>committed = c, working = c\<rparr>])"
  by (auto simp add: updatePageUrl_run_def startTransaction_def findByIdAndDelete_session_def
      findByIdAndDelete_def abortTransaction_def create_session_def create_def
      pageSchema_valid_def Let_def)

lemma run_Duplicate:
  "findById oldUrl c = Some a \<Longrightarrow> np_url nd \<noteq> [] \<Longrightarrow> np_page nd \<noteq> [] \<Longrightarrow>
   np_url nd \<in> set (map page_id (remove_id oldUrl c)) \<Longrightarrow>
   updatePageUrl_run oldUrl nd c =
     (Inl DuplicateKey,
      [\<lparr>committed = c, working = c\<rparr>, \<lparr>committed = c, working = remove_id oldUrl c\<rparr>,
       \<lparr>committed = c, working = c\<rparr>])"
  by (simp add: updatePageUrl_run_def startTransaction_def findByIdAndDelete_session_def
      findByIdAndDelete_def abortTransaction_def create_session_def create_def
      pageSchema_valid_def insertOne_def Let_def)

lemma run_Success:
  "findById oldUrl c = Some a \<Longrightarrow> np_url nd \<noteq> [] \<Longrightarrow> np_page nd \<noteq> [] \<Longrightarrow>
   np_url nd \<notin> set (map page_id (remove_id oldUrl c)) \<Longrightarrow>
   updatePageUrl_run oldUrl nd c =
     (Inr \<lparr>page_id = np_url nd, page = np_page nd, description = np_description nd\<rparr>,
      [\<lparr>committed = c, working = c\<rparr>, \<lparr>committed = c, working = remove_id oldUrl c\<rparr>,
       \<lparr>committed = c,
        working = remove_id oldUrl c @
          [\<lparr>page_id = np_url nd, page = np_page nd, description = np_description nd\<rparr>]\<rparr>,
       \<lparr>committed = remove_id oldUrl c @
          [\<lparr>page_id = np_url nd, page = np_page nd, description = np_description nd\<rparr>],
        working = remove_id oldUrl c @
          [\<lparr>page_id = np_url nd, page = np_page nd, description = np_description nd\<rparr>]\<rparr>])"
  by (simp add: updatePageUrl_run_def startTransaction_def findByIdAndDelete_session_def
      findByIdAndDelete_def commitTransaction_def create_session_def create_def
      pageSchema_valid_def insertOne_def Let_def)

lemma updatePageUrl_unfold:
  "updatePageUrl oldUrl nd c =
     (fst (updatePageUrl_run oldUrl nd c), committed (last (snd (updatePageUrl_run oldUrl nd c))))"
  by (simp add: updatePageUrl_def split: prod.splits)

lemma snd_updatePageUrl:
  "snd (updatePageUrl oldUrl nd c) = c \<or>
   (np_url nd \<notin> set (map page_id (remove_id oldUrl c)) \<and>
    snd (updatePageUrl oldUrl nd c) =
      remove_id oldUrl c @
        [\<lparr>page_id = np_url nd, page = np_page nd, description = np_description nd\<rparr>])"
  by (simp add: updatePageUrl_def updatePageUrl_run_def startTransaction_def
      findByIdAndDelete_session_def findByIdAndDelete_def abortTransaction_def
      commitTransaction_def create_session_def create_def insertOne_def Let_def
      split: option.splits)

section \<open>Every write keeps the keys unique\<close>

lemma unique_keys_createPage: "unique_keys c \<Longrightarrow> unique_keys (snd (createPage t k d c))"
  by (auto simp: createPage_def create_def insertOne_def unique_keys_def split: sum.splits)

lemma unique_keys_updatePage: "unique_keys c \<Longrightarrow> unique_keys (snd (updatePage ou k t d c))"
  by (simp add: updatePage_def findByIdAndUpdate_def unique_keys_def ids_update
      page_id_apply_update split: option.splits)

lemma unique_keys_deletePage: "unique_keys c \<Longrightarrow> unique_keys (snd (deletePage k c))"
  by (simp add: deletePage_def findByIdAndDelete_def unique_keys_remove)

lemma unique_keys_updatePageUrl:
  "unique_keys c \<Longrightarrow> unique_keys (snd (updatePageUrl oldUrl nd c))"
  using snd_updatePageUrl[of oldUrl nd c] unique_keys_remove[of c oldUrl]
  by (auto simp: unique_keys_def)

section \<open>The claims\<close>

subsection \<open>C1: a rename onto an occupied key\<close>

text \<open>
  C1 states that, for every store with a record at \<open>oldKey\<close> and a distinct record at
  \<open>newKey\<close>, the rename of \<open>oldKey\<close> to \<open>newKey\<close> fails with \<open>DuplicateKey\<close> and leaves the store
  identical. The store is left identical for every title and description, but the error
  is \<open>DuplicateKey\<close> only when the schema accepts the new document: \<open>create\<close> validates it
  before the insert, so an empty title gives \<open>InvalidInput\<close>. The store below holds a
  record at \<^verbatim>\<open>a\<close> and another at \<^verbatim>\<open>b\<close>; the rename of \<^verbatim>\<open>a\<close> to \<^verbatim>\<open>b\<close> with an empty title
  does not fail with \<open>DuplicateKey\<close>.
\<close>

theorem rename_conflict_empty_title_counterexample:
  "getPageById ''a''
     [\<lparr>page_id = ''a'', page = ''A'', description = None\<rparr>,
      \<lparr>page_id = ''b'', page = ''B'', description = Some ''about b''\<rparr>] = Some \<lparr>page_id = ''a'', page = ''A'', description = None\<rparr>
   \<and> getPageById ''b''
     [\<lparr>page_id = ''a'', page = ''A'', description = None\<rparr>,
      \<lparr>page_id = ''b'', page = ''B'', description = Some ''about b''\<rparr>] = Some \<lparr>page_id = ''b'', page = ''B'', description = Some ''about b''\<rparr>
   \<and> updatePageUrl ''a'' \<lparr>np_page = '''', np_url = ''b'', np_description = None\<rparr>
     [\<lparr>page_id = ''a'', page = ''A'', description = None\<rparr>,
      \<lparr>page_id = ''b'', page = ''B'', description = Some ''about b''\<rparr>] =
     (Inl InvalidInput,
     [\<lparr>page_id = ''a'', page = ''A'', description = None\<rparr>,
      \<lparr>page_id = ''b'', page = ''B'', description = Some ''about b''\<rparr>])
   \<and> fst (updatePageUrl ''a'' \<lparr>np_page = '''', np_url = ''b'', np_description = None\<rparr>
     [\<lparr>page_id = ''a'', page = ''A'', description = None\<rparr>,
      \<lparr>page_id = ''b'', page = ''B'', description = Some ''about b''\<rparr>]) \<noteq> Inl DuplicateKey"
  by (simp add: updatePageUrl_def updatePageUrl_run_def startTransaction_def findByIdAndDelete_session_def
      findByIdAndDelete_def abortTransaction_def commitTransaction_def create_session_def create_def
      pageSchema_valid_def insertOne_def getPageById_def findById_def Let_def)

text \<open>
  C1 as amended: for every store with a record at \<open>oldKey\<close> and a distinct record at
  \<open>newKey\<close>, the rename fails, with \<open>DuplicateKey\<close> when the new key and the title are not
  empty and with \<open>InvalidInput\<close> otherwise; the store after the call is the store before it,
  the records at \<open>oldKey\<close> and at \<open>newKey\<close> are the original ones, and at no statement of the
  run does a reader outside the session see another collection than the original one.
\<close>

theorem rename_conflict_rolls_back:
  assumes old: "getPageById oldKey c = Some a"
    and new: "getPageById newKey c = Some b"
    and ne: "oldKey \<noteq> newKey"
  shows "updatePageUrl oldKey \<lparr>np_page = t, np_url = newKey, np_description = d\<rparr> c =
           (Inl (if newKey = [] \<or> t = [] then InvalidInput else DuplicateKey), c)
         \<and> getPageById oldKey
             (snd (updatePageUrl oldKey \<lparr>np_page = t, np_url = newKey, np_description = d\<rparr> c)) =
             Some a
         \<and> getPageById newKey
             (snd (updatePageUrl oldKey \<lparr>np_page = t, np_url = newKey, np_description = d\<rparr> c)) =
             Some b
         \<and> (\<forall>tx \<in> set (snd (updatePageUrl_run oldKey
                              \<lparr>np_page = t, np_url = newKey, np_description = d\<rparr> c)).
               committed tx = c)"
proof -
  let ?nd = "\<lparr>np_page = t, np_url = newKey, np_description = d\<rparr>"
  from old have o: "findById oldKey c = Some a" by (simp add: getPageById_def)
  from new ne have "findById newKey (remove_id oldKey c) = Some b"
    by (simp add: getPageById_def findById_remove_other)
  then have occ: "newKey \<in> set (map page_id (remove_id oldKey c))"
    using findById_None_iff[of newKey "remove_id oldKey c"] by simp
  show ?thesis
  proof (cases "newKey = [] \<or> t = []")
    case True
    then have "updatePageUrl_run oldKey ?nd c =
      (Inl InvalidInput,
       [\<lparr>committed = c, working = c\<rparr>, \<lparr>committed = c, working = remove_id oldKey c\<rparr>,
        \<lparr>committed = c, working = c\<rparr>])"
      using run_Invalid[OF o, of ?nd] by simp
    with True old new show ?thesis by (simp add: updatePageUrl_unfold)
  next
    case False
    then have "updatePageUrl_run oldKey ?nd c =
      (Inl DuplicateKey,
       [\<lparr>committed = c, working = c\<rparr>, \<lparr>committed = c, working = remove_id oldKey c\<rparr>,
        \<lparr>committed = c, working = c\<rparr>])"
      using run_Duplicate[OF o, of ?nd] occ by simp
    with False old new show ?thesis by (simp add: updatePageUrl_unfold)
  qed
qed

theorem rename_conflict_rolls_back_witness:
  "updatePageUrl ''a'' \<lparr>np_page = ''T'', np_url = ''b'', np_description = None\<rparr>
     [\<lparr>page_id = ''a'', page = ''A'', description = None\<rparr>,
      \<lparr>page_id = ''b'', page = ''B'', description = Some ''about b''\<rparr>] =
     (Inl DuplicateKey,
     [\<lparr>page_id = ''a'', page = ''A'', description = None\<rparr>,
      \<lparr>page_id = ''b'', page = ''B'', description = Some ''about b''\<rparr>])"
proof -
  have old: "getPageById ''a''
     [\<lparr>page_id = ''a'', page = ''A'', description = None\<rparr>,
      \<lparr>page_id = ''b'', page = ''B'', description = Some ''about b''\<rparr>] = Some \<lparr>page_id = ''a'', page = ''A'', description = None\<rparr>"
    by (simp add: getPageById_def findById_def)
  have new: "getPageById ''b''
     [\<lparr>page_id = ''a'', page = ''A'', description = None\<rparr>,
      \<lparr>page_id = ''b'', page = ''B'', description = Some ''about b''\<rparr>] = Some \<lparr>page_id = ''b'', page = ''B'', description = Some ''about b''\<rparr>"
    by (simp add: getPageById_def findById_def)
  have ne: "''a'' \<noteq> ''b''" by simp
  show ?thesis
    using rename_conflict_rolls_back[OF old new ne, of "''T''" None] by simp
qed

subsection \<open>C2: a successful rename\<close>

text \<open>
  C2 states that, for every store with a record at \<open>oldKey\<close>, the rename succeeds. It does
  not when \<open>newKey\<close> is held by another record: in the store below the rename of \<^verbatim>\<open>a\<close> to
  \<^verbatim>\<open>b\<close> fails with \<open>DuplicateKey\<close>, and the record at \<^verbatim>\<open>a\<close> is still there.
\<close>

theorem rename_occupied_target_counterexample:
  "getPageById ''a''
     [\<lparr>page_id = ''a'', page = ''A'', description = None\<rparr>,
      \<lparr>page_id = ''b'', page = ''B'', description = Some ''about b''\<rparr>] = Some \<lparr>page_id = ''a'', page = ''A'', description = None\<rparr>
   \<and> fst (updatePageUrl ''a'' \<lparr>np_page = ''T'', np_url = ''b'', np_description = None\<rparr>
     [\<lparr>page_id = ''a'', page = ''A'', description = None\<rparr>,
      \<lparr>page_id = ''b'', page = ''B'', description = Some ''about b''\<rparr>]) = Inl DuplicateKey
   \<and> getPageById ''a'' (snd (updatePageUrl ''a'' \<lparr>np_page = ''T'', np_url = ''b'', np_description = None\<rparr>
     [\<lparr>page_id = ''a'', page = ''A'', description = None\<rparr>,
      \<lparr>page_id = ''b'', page = ''B'', description = Some ''about b''\<rparr>])) \<noteq> None"
  by (simp add: updatePageUrl_def updatePageUrl_run_def startTransaction_def findByIdAndDelete_session_def
      findByIdAndDelete_def abortTransaction_def commitTransaction_def create_session_def create_def
      pageSchema_valid_def insertOne_def getPageById_def findById_def Let_def)

text \<open>
  C2 as amended: for every store with unique keys, a record at \<open>oldKey\<close> and no record at
  \<open>newKey\<close>, and for every non-empty \<open>newKey\<close> and non-empty title \<open>t\<close>, the rename succeeds and
  returns the new record; afterwards no record is at \<open>oldKey\<close> and the record at \<open>newKey\<close> is
  \<open>{key: newKey, title: t, description: d}\<close>; and at every statement of the run a reader
  outside the session sees either the collection before the call or the collection after
  it, never one in between.
\<close>

theorem rename_success:
  assumes old: "getPageById oldKey c = Some a"
    and uniq: "unique_keys c"
    and free: "getPageById newKey c = None"
    and key: "newKey \<noteq> []"
    and title: "t \<noteq> []"
  shows "fst (updatePageUrl oldKey \<lparr>np_page = t, np_url = newKey, np_description = d\<rparr> c) =
           Inr \<lparr>page_id = newKey, page = t, description = d\<rparr>
         \<and> getPageById oldKey
             (snd (updatePageUrl oldKey \<lparr>np_page = t, np_url = newKey, np_description = d\<rparr> c)) =
             None
         \<and> getPageById newKey
             (snd (updatePageUrl oldKey \<lparr>np_page = t, np_url = newKey, np_description = d\<rparr> c)) =
             Some \<lparr>page_id = newKey, page = t, description = d\<rparr>
         \<and> (\<forall>tx \<in> set (snd (updatePageUrl_run oldKey
                              \<lparr>np_page = t, np_url = newKey, np_description = d\<rparr> c)).
               committed tx = c \<or>
               committed tx =
                 snd (updatePageUrl oldKey \<lparr>np_page = t, np_url = newKey, np_description = d\<rparr> c))"
proof -
  let ?nd = "\<lparr>np_page = t, np_url = newKey, np_description = d\<rparr>"
  let ?new = "\<lparr>page_id = newKey, page = t, description = d\<rparr>"
  from old have o: "findById oldKey c = Some a" by (simp add: getPageById_def)
  from free have "newKey \<notin> set (map page_id c)" by (simp add: getPageById_def findById_None_iff)
  then have nocc: "newKey \<notin> set (map page_id (remove_id oldKey c))"
    using ids_remove_subset[of oldKey c] by blast
  from o free have ne: "oldKey \<noteq> newKey" by (auto simp: getPageById_def)
  have run: "updatePageUrl_run oldKey ?nd c =
     (Inr ?new,
      [\<lparr>committed = c, working = c\<rparr>, \<lparr>committed = c, working = remove_id oldKey c\<rparr>,
       \<lparr>committed = c, working = remove_id oldKey c @ [?new]\<rparr>,
       \<lparr>committed = remove_id oldKey c @ [?new], working = remove_id oldKey c @ [?new]\<rparr>])"
    using run_Success[OF o, of ?nd] key title nocc by simp
  have g1: "findById oldKey (remove_id oldKey c @ [?new]) = None"
    using ne by (simp add: findById_snoc findById_remove_same[OF uniq])
  have g2: "findById newKey (remove_id oldKey c @ [?new]) = Some ?new"
    using nocc findById_None_iff[of newKey "remove_id oldKey c"] by (simp add: findById_snoc)
  show ?thesis using g1 g2 by (simp add: updatePageUrl_unfold run getPageById_def)
qed

theorem rename_success_witness:
  "fst (updatePageUrl ''a'' \<lparr>np_page = ''T'', np_url = ''c'', np_description = None\<rparr>
     [\<lparr>page_id = ''a'', page = ''A'', description = None\<rparr>,
      \<lparr>page_id = ''b'', page = ''B'', description = Some ''about b''\<rparr>]) =
     Inr \<lparr>page_id = ''c'', page = ''T'', description = None\<rparr>
   \<and> getPageById ''a'' (snd (updatePageUrl ''a'' \<lparr>np_page = ''T'', np_url = ''c'', np_description = None\<rparr>
     [\<lparr>page_id = ''a'', page = ''A'', description = None\<rparr>,
      \<lparr>page_id = ''b'', page = ''B'', description = Some ''about b''\<rparr>])) = None"
proof -
  have old: "getPageById ''a''
     [\<lparr>page_id = ''a'', page = ''A'', description = None\<rparr>,
      \<lparr>page_id = ''b'', page = ''B'', description = Some ''about b''\<rparr>] = Some \<lparr>page_id = ''a'', page = ''A'', description = None\<rparr>"
    by (simp add: getPageById_def findById_def)
  have uniq: "unique_keys
     [\<lparr>page_id = ''a'', page = ''A'', description = None\<rparr>,
      \<lparr>page_id = ''b'', page = ''B'', description = Some ''about b''\<rparr>]"
    by (simp add: unique_keys_def)
  have free: "getPageById ''c''
     [\<lparr>page_id = ''a'', page = ''A'', description = None\<rparr>,
      \<lparr>page_id = ''b'', page = ''B'', description = Some ''about b''\<rparr>] = None"
    by (simp add: getPageById_def findById_def)
  have key: "''c'' \<noteq> []" by simp
  have title: "''T'' \<noteq> []" by simp
  show ?thesis
    using rename_success[OF old uniq free key title, of None] by simp
qed

subsection \<open>C3: a rename of a key that has no record\<close>

text \<open>
  C3: for every store with no record at \<open>oldKey\<close>, the rename fails with \<open>NotFound\<close> and the
  store after the call is the store before it, so no record is created under the new key
  and every record is as it was; no reader sees another collection during the run either.
\<close>

theorem rename_missing_source:
  assumes "getPageById oldKey c = None"
  shows "updatePageUrl oldKey newData c = (Inl NotFound, c)
         \<and> (\<forall>tx \<in> set (snd (updatePageUrl_run oldKey newData c)). committed tx = c)"
  using assms by (simp add: getPageById_def updatePageUrl_unfold run_NotFound)

theorem rename_missing_source_witness:
  "updatePageUrl ''nonexistent'' \<lparr>np_page = ''T'', np_url = ''c'', np_description = None\<rparr>
     [\<lparr>page_id = ''a'', page = ''A'', description = None\<rparr>,
      \<lparr>page_id = ''b'', page = ''B'', description = Some ''about b''\<rparr>] =
     (Inl NotFound,
     [\<lparr>page_id = ''a'', page = ''A'', description = None\<rparr>,
      \<lparr>page_id = ''b'', page = ''B'', description = Some ''about b''\<rparr>])"
proof -
  have miss: "getPageById ''nonexistent''
     [\<lparr>page_id = ''a'', page = ''A'', description = None\<rparr>,
      \<lparr>page_id = ''b'', page = ''B'', description = Some ''about b''\<rparr>] = None"
    by (simp add: getPageById_def findById_def)
  show ?thesis
    using rename_missing_source[OF miss, of "\<lparr>np_page = ''T'', np_url = ''c'', np_description = None\<rparr>"] by simp
qed

subsection \<open>C4: is the normalizer idempotent?\<close>

text \<open>
  C4 states that \<open>normalize (normalize s) = normalize s\<close> for every string \<open>s\<close>. The
  normalizer strips one scheme and one slash at each end, so a string wrapped twice is
  unwrapped once per call: \<^verbatim>\<open>//a\<close> becomes \<^verbatim>\<open>/a\<close>, and \<^verbatim>\<open>/a\<close> becomes \<^verbatim>\<open>a\<close>.
\<close>

theorem cleanUrl_not_idempotent_counterexample:
  "cleanUrl ''//a'' = ''/a'' \<and> cleanUrl (cleanUrl ''//a'') = ''a''
   \<and> cleanUrl (cleanUrl ''//a'') \<noteq> cleanUrl ''//a''"
  by (simp add: cleanUrl_def strip_scheme_def replace_dots_def)

text \<open>
  C4 as amended: \<open>normalize (normalize s) = normalize s\<close> holds exactly for the strings \<open>s\<close>
  whose normal form \<open>normalize s\<close> does not itself begin with \<^verbatim>\<open>http://\<close> or \<^verbatim>\<open>https://\<close>
  and neither begins nor ends with a slash; and the strings that \<open>normalize\<close> returns
  unchanged (the keys in canonical form) are exactly those with no leading scheme, no
  leading or trailing slash and no dot.
\<close>

theorem cleanUrl_idempotent_iff:
  "(cleanUrl (cleanUrl s) = cleanUrl s) = unwrapped (cleanUrl s)
   \<and> (cleanUrl k = k) = (unwrapped k \<and> CHR ''.'' \<notin> set k)"
  by (simp add: cleanUrl_fixed_iff no_dots_cleanUrl)

theorem cleanUrl_idempotent_iff_witness:
  "cleanUrl (cleanUrl ''https://example.com/'') = cleanUrl ''https://example.com/''"
proof -
  have "unwrapped (cleanUrl ''https://example.com/'')"
    by (simp add: cleanUrl_def strip_scheme_def replace_dots_def unwrapped_def has_scheme_def
        leading_slash_def trailing_slash_def)
  then show ?thesis
    using cleanUrl_idempotent_iff[of "''https://example.com/''" "[]"] by simp
qed

subsection \<open>C5: what the normalizer computes\<close>

text \<open>
  C5: \<open>cleanUrl\<close> (the revision with the dot replacement) is the function the
  specification describes: strip one leading \<^verbatim>\<open>http://\<close> or \<^verbatim>\<open>https://\<close>, then one
  leading and one trailing slash, then replace every dot by a dash; and it maps
  \<^verbatim>\<open>https://example.com/\<close> to \<^verbatim>\<open>example-com\<close>, \<^verbatim>\<open>/foo/\<close> to \<^verbatim>\<open>foo\<close>, \<^verbatim>\<open>a.b.c\<close> to \<^verbatim>\<open>a-b-c\<close> and
  the empty string to itself.
\<close>

theorem cleanUrl_normalize_spec:
  "cleanUrl s = normalize_spec s
   \<and> cleanUrl ''https://example.com/'' = ''example-com''
   \<and> cleanUrl ''/foo/'' = ''foo''
   \<and> cleanUrl ''a.b.c'' = ''a-b-c''
   \<and> cleanUrl '''' = ''''"
proof -
  have "cleanUrl s = normalize_spec s"
    by (simp add: cleanUrl_def normalize_spec_def strip_slashes_True strip_scheme_spec
        replace_dots_spec)
  moreover have "cleanUrl ''https://example.com/'' = ''example-com''"
    by (simp add: cleanUrl_def strip_scheme_def replace_dots_def)
  moreover have "cleanUrl ''/foo/'' = ''foo''"
    by (simp add: cleanUrl_def strip_scheme_def replace_dots_def)
  moreover have "cleanUrl ''a.b.c'' = ''a-b-c''"
    by (simp add: cleanUrl_def strip_scheme_def replace_dots_def)
  moreover have "cleanUrl '''' = ''''"
    by (simp add: cleanUrl_def strip_scheme_def replace_dots_def)
  ultimately show ?thesis by blast
qed

subsection \<open>C6: an insert under a key that is taken\<close>

text \<open>
  C6 states that, for every key \<open>k\<close> with a record present, a second insert at \<open>k\<close> with any
  title and description fails with \<open>DuplicateKey\<close>. The document is validated before it is
  inserted, so with an empty title the insert fails with \<open>InvalidInput\<close>, whether or not the
  key is taken.
\<close>

theorem insert_occupied_empty_title_counterexample:
  "getPageById ''a''
     [\<lparr>page_id = ''a'', page = ''A'', description = None\<rparr>,
      \<lparr>page_id = ''b'', page = ''B'', description = Some ''about b''\<rparr>] = Some \<lparr>page_id = ''a'', page = ''A'', description = None\<rparr>
   \<and> createPage '''' ''a'' None
     [\<lparr>page_id = ''a'', page = ''A'', description = None\<rparr>,
      \<lparr>page_id = ''b'', page = ''B'', description = Some ''about b''\<rparr>] =
     (Inl InvalidInput,
     [\<lparr>page_id = ''a'', page = ''A'', description = None\<rparr>,
      \<lparr>page_id = ''b'', page = ''B'', description = Some ''about b''\<rparr>])
   \<and> fst (createPage '''' ''a'' None
     [\<lparr>page_id = ''a'', page = ''A'', description = None\<rparr>,
      \<lparr>page_id = ''b'', page = ''B'', description = Some ''about b''\<rparr>]) \<noteq> Inl DuplicateKey"
  by (simp add: createPage_def create_def pageSchema_valid_def insertOne_def getPageById_def findById_def)

text \<open>
  C6 as amended: for every key \<open>k\<close> with a record present, a second insert at \<open>k\<close> fails, with
  \<open>DuplicateKey\<close> when \<open>k\<close> and the title are not empty and with \<open>InvalidInput\<close> otherwise, and
  the store, hence the record at \<open>k\<close>, is unchanged by the failed insert.
\<close>

theorem insert_occupied_key:
  assumes "getPageById k c = Some p"
  shows "createPage t k d c =
           (Inl (if k = [] \<or> t = [] then InvalidInput else DuplicateKey), c)
         \<and> getPageById k (snd (createPage t k d c)) = Some p"
proof -
  from assms have "k \<in> set (map page_id c)"
    using findById_None_iff[of k c] by (simp add: getPageById_def)
  with assms show ?thesis
    by (simp add: createPage_def create_def pageSchema_valid_def insertOne_def)
qed

theorem insert_occupied_key_witness:
  "createPage ''T'' ''a'' (Some ''again'')
     [\<lparr>page_id = ''a'', page = ''A'', description = None\<rparr>,
      \<lparr>page_id = ''b'', page = ''B'', description = Some ''about b''\<rparr>] =
     (Inl DuplicateKey,
     [\<lparr>page_id = ''a'', page = ''A'', description = None\<rparr>,
      \<lparr>page_id = ''b'', page = ''B'', description = Some ''about b''\<rparr>])"
proof -
  have occ: "getPageById ''a''
     [\<lparr>page_id = ''a'', page = ''A'', description = None\<rparr>,
      \<lparr>page_id = ''b'', page = ''B'', description = Some ''about b''\<rparr>] = Some \<lparr>page_id = ''a'', page = ''A'', description = None\<rparr>"
    by (simp add: getPageById_def findById_def)
  show ?thesis
    using insert_occupied_key[OF occ, of "''T''" "Some ''again''"] by simp
qed

subsection \<open>C7: an insert with an empty key or an empty title\<close>

text \<open>
  C7: an insert whose key is the empty string or whose title is the empty string fails
  with \<open>InvalidInput\<close>, and the store is unchanged: no record is created.
\<close>

theorem insert_invalid_input:
  assumes "k = [] \<or> t = []"
  shows "createPage t k d c = (Inl InvalidInput, c)"
  using assms by (auto simp add: createPage_def create_def pageSchema_valid_def)

theorem insert_invalid_input_witness:
  "createPage ''T'' '''' None [] = (Inl InvalidInput, [])
   \<and> createPage '''' ''k'' None
     [\<lparr>page_id = ''a'', page = ''A'', description = None\<rparr>,
      \<lparr>page_id = ''b'', page = ''B'', description = Some ''about b''\<rparr>] =
     (Inl InvalidInput,
     [\<lparr>page_id = ''a'', page = ''A'', description = None\<rparr>,
      \<lparr>page_id = ''b'', page = ''B'', description = Some ''about b''\<rparr>])"
proof -
  have h1: "('''' :: string) = [] \<or> ''T'' = []" by simp
  have h2: "''k'' = [] \<or> ('''' :: string) = []" by simp
  show ?thesis
    using insert_invalid_input[OF h1, of None "[]"]
      insert_invalid_input[OF h2, of None
        "[\<lparr>page_id = ''a'', page = ''A'', description = None\<rparr>,
      \<lparr>page_id = ''b'', page = ''B'', description = Some ''about b''\<rparr>]"]
    by simp
qed

subsection \<open>C8: what an update may touch\<close>

text \<open>
  C8 states that an update at \<open>k\<close> changes no key and no record under another key, and that
  when no record is at \<open>k\<close> it returns absent and leaves the store as it was. The frame
  holds, and a miss creates nothing; but the update validators run before the query
  (\<^verbatim>\<open>runValidators: true\<close>), so with an empty title the call fails with \<open>InvalidInput\<close> instead
  of returning absent.
\<close>

theorem update_miss_empty_title_counterexample:
  "getPageById ''nonexistent''
     [\<lparr>page_id = ''a'', page = ''A'', description = None\<rparr>,
      \<lparr>page_id = ''b'', page = ''B'', description = Some ''about b''\<rparr>] = None
   \<and> updatePage True ''nonexistent'' '''' None
     [\<lparr>page_id = ''a'', page = ''A'', description = None\<rparr>,
      \<lparr>page_id = ''b'', page = ''B'', description = Some ''about b''\<rparr>] =
     (Inl InvalidInput,
     [\<lparr>page_id = ''a'', page = ''A'', description = None\<rparr>,
      \<lparr>page_id = ''b'', page = ''B'', description = Some ''about b''\<rparr>])
   \<and> fst (updatePage True ''nonexistent'' '''' None
     [\<lparr>page_id = ''a'', page = ''A'', description = None\<rparr>,
      \<lparr>page_id = ''b'', page = ''B'', description = Some ''about b''\<rparr>]) \<noteq> Inr None"
  by (simp add: updatePage_def findByIdAndUpdate_def getPageById_def findById_def)

text \<open>
  C8 as amended: for every key \<open>k\<close>, an update at \<open>k\<close> keeps the number of records and the key
  of every record, never changes a record stored under a key other than \<open>k\<close> (so a lookup
  of another key gives what it gave before); when no record is at \<open>k\<close> the store is
  completely unchanged (no record is created) and the call returns absent if the title
  is not empty, and fails with \<open>InvalidInput\<close> if it is.
\<close>

theorem update_frame:
  "length (snd (updatePage ou k t d c)) = length c
   \<and> (\<forall>i < length c. page_id (snd (updatePage ou k t d c) ! i) = page_id (c ! i)
          \<and> (page_id (c ! i) \<noteq> k \<longrightarrow> snd (updatePage ou k t d c) ! i = c ! i))
   \<and> (\<forall>k'. k' \<noteq> k \<longrightarrow> getPageById k' (snd (updatePage ou k t d c)) = getPageById k' c)
   \<and> (getPageById k c = None \<longrightarrow>
        updatePage ou k t d c = (if t = [] then Inl InvalidInput else Inr None, c))"
proof -
  have ids: "map page_id (snd (updatePage ou k t d c)) = map page_id c"
    by (simp add: updatePage_def findByIdAndUpdate_def ids_update page_id_apply_update
        split: option.splits)
  have len: "length (snd (updatePage ou k t d c)) = length c"
    using arg_cong[OF ids, of length] by simp
  have keys: "\<forall>i < length c. page_id (snd (updatePage ou k t d c) ! i) = page_id (c ! i)"
  proof (intro allI impI)
    fix i assume i: "i < length c"
    then have "map page_id (snd (updatePage ou k t d c)) ! i =
        page_id (snd (updatePage ou k t d c) ! i)"
      using len by simp
    moreover have "map page_id c ! i = page_id (c ! i)" using i by simp
    ultimately show "page_id (snd (updatePage ou k t d c) ! i) = page_id (c ! i)"
      using ids by simp
  qed
  have others: "\<forall>i < length c. page_id (c ! i) \<noteq> k \<longrightarrow> snd (updatePage ou k t d c) ! i = c ! i"
    by (simp add: updatePage_def findByIdAndUpdate_def update_id_other split: option.splits)
  have get: "\<forall>k'. k' \<noteq> k \<longrightarrow> getPageById k' (snd (updatePage ou k t d c)) = getPageById k' c"
    by (simp add: updatePage_def findByIdAndUpdate_def getPageById_def findById_update_other
        page_id_apply_update split: option.splits)
  have miss: "getPageById k c = None \<longrightarrow>
        updatePage ou k t d c = (if t = [] then Inl InvalidInput else Inr None, c)"
    by (simp add: updatePage_def findByIdAndUpdate_def getPageById_def)
  from len keys others get miss show ?thesis by blast
qed

theorem update_frame_witness:
  "snd (updatePage True ''b'' ''T'' None
     [\<lparr>page_id = ''a'', page = ''A'', description = None\<rparr>,
      \<lparr>page_id = ''b'', page = ''B'', description = Some ''about b''\<rparr>]) ! 0 = \<lparr>page_id = ''a'', page = ''A'', description = None\<rparr>
   \<and> page_id (snd (updatePage True ''b'' ''T'' None
     [\<lparr>page_id = ''a'', page = ''A'', description = None\<rparr>,
      \<lparr>page_id = ''b'', page = ''B'', description = Some ''about b''\<rparr>]) ! 1) = ''b''
   \<and> getPageById ''a'' (snd (updatePage True ''b'' ''T'' None
     [\<lparr>page_id = ''a'', page = ''A'', description = None\<rparr>,
      \<lparr>page_id = ''b'', page = ''B'', description = Some ''about b''\<rparr>])) = Some \<lparr>page_id = ''a'', page = ''A'', description = None\<rparr>
   \<and> updatePage True ''nonexistent'' ''T'' None
     [\<lparr>page_id = ''a'', page = ''A'', description = None\<rparr>,
      \<lparr>page_id = ''b'', page = ''B'', description = Some ''about b''\<rparr>] =
     (Inr None,
     [\<lparr>page_id = ''a'', page = ''A'', description = None\<rparr>,
      \<lparr>page_id = ''b'', page = ''B'', description = Some ''about b''\<rparr>])"
proof -
  have miss: "getPageById ''nonexistent''
     [\<lparr>page_id = ''a'', page = ''A'', description = None\<rparr>,
      \<lparr>page_id = ''b'', page = ''B'', description = Some ''about b''\<rparr>] = None"
    by (simp add: getPageById_def findById_def)
  have hit: "getPageById ''a''
     [\<lparr>page_id = ''a'', page = ''A'', description = None\<rparr>,
      \<lparr>page_id = ''b'', page = ''B'', description = Some ''about b''\<rparr>] = Some \<lparr>page_id = ''a'', page = ''A'', description = None\<rparr>"
    by (simp add: getPageById_def findById_def)
  show ?thesis
    using update_frame[of True "''b''" "''T''" None
        "[\<lparr>page_id = ''a'', page = ''A'', description = None\<rparr>,
      \<lparr>page_id = ''b'', page = ''B'', description = Some ''about b''\<rparr>]"]
      update_frame[of True "''nonexistent''" "''T''" None
        "[\<lparr>page_id = ''a'', page = ''A'', description = None\<rparr>,
      \<lparr>page_id = ''b'', page = ''B'', description = Some ''about b''\<rparr>]"]
      miss hit
    by (simp add: nth_Cons)
qed

subsection \<open>C9: key uniqueness is an invariant\<close>

text \<open>
  C9: if no two records of the store share a key, then after any operation of the page
  store (list all, get by key, insert, update, delete, rename key), whether it succeeded
  or failed, no two records of the store share a key.
\<close>

theorem uniqueness_invariant:
  assumes "unique_keys c"
  shows "unique_keys (store_after ou opn c)"
  using assms
  by (cases opn)
    (simp_all add: unique_keys_createPage unique_keys_updatePage unique_keys_deletePage
      unique_keys_updatePageUrl)

theorem uniqueness_invariant_witness:
  "unique_keys (store_after True (Insert ''a'' ''T'' None)
     [\<lparr>page_id = ''a'', page = ''A'', description = None\<rparr>,
      \<lparr>page_id = ''b'', page = ''B'', description = Some ''about b''\<rparr>])
   \<and> unique_keys (store_after True (RenameKey ''a'' \<lparr>np_page = ''T'', np_url = ''c'', np_description = None\<rparr>)
     [\<lparr>page_id = ''a'', page = ''A'', description = None\<rparr>,
      \<lparr>page_id = ''b'', page = ''B'', description = Some ''about b''\<rparr>])"
proof -
  have uniq: "unique_keys
     [\<lparr>page_id = ''a'', page = ''A'', description = None\<rparr>,
      \<lparr>page_id = ''b'', page = ''B'', description = Some ''about b''\<rparr>]"
    by (simp add: unique_keys_def)
  show ?thesis
    using uniqueness_invariant[OF uniq, of True "Insert ''a'' ''T'' None"]
      uniqueness_invariant[OF uniq, of True "RenameKey ''a'' \<lparr>np_page = ''T'', np_url = ''c'', np_description = None\<rparr>"]
    by simp
qed

subsection \<open>C10: a rename of a record to its own key\<close>

text \<open>
  C10 states that, for every store with a record at \<open>k\<close>, the rename of \<open>k\<close> to \<open>k\<close> with title
  \<open>t\<close> and description \<open>d\<close> succeeds and leaves that record at \<open>k\<close>. The delete inside the
  transaction does free \<open>k\<close>, so the insert never meets a duplicate; but the new document
  is validated like any other, and with an empty title the rename fails and the
  original record stays.
\<close>

theorem rename_same_key_empty_title_counterexample:
  "getPageById ''a''
     [\<lparr>page_id = ''a'', page = ''A'', description = None\<rparr>,
      \<lparr>page_id = ''b'', page = ''B'', description = Some ''about b''\<rparr>] = Some \<lparr>page_id = ''a'', page = ''A'', description = None\<rparr>
   \<and> fst (updatePageUrl ''a'' \<lparr>np_page = '''', np_url = ''a'', np_description = None\<rparr>
     [\<lparr>page_id = ''a'', page = ''A'', description = None\<rparr>,
      \<lparr>page_id = ''b'', page = ''B'', description = Some ''about b''\<rparr>]) = Inl InvalidInput
   \<and> getPageById ''a'' (snd (updatePageUrl ''a'' \<lparr>np_page = '''', np_url = ''a'', np_description = None\<rparr>
     [\<lparr>page_id = ''a'', page = ''A'', description = None\<rparr>,
      \<lparr>page_id = ''b'', page = ''B'', description = Some ''about b''\<rparr>])) \<noteq> Some \<lparr>page_id = ''a'', page = '''', description = None\<rparr>"
  by (simp add: updatePageUrl_def updatePageUrl_run_def startTransaction_def findByIdAndDelete_session_def
      findByIdAndDelete_def abortTransaction_def commitTransaction_def create_session_def create_def
      pageSchema_valid_def insertOne_def getPageById_def findById_def Let_def)

text \<open>
  C10 as amended: for every store with unique keys and a record at a non-empty key \<open>k\<close>,
  and every non-empty title \<open>t\<close>, the rename of \<open>k\<close> to \<open>k\<close> succeeds (in particular it does not
  fail with \<open>DuplicateKey\<close>) and returns the new record; afterwards the record at \<open>k\<close> is
  \<open>{key: k, title: t, description: d}\<close> and the lookup of every other key gives what it
  gave before, as after a full update in place.
\<close>

theorem rename_same_key:
  assumes old: "getPageById k c = Some a"
    and uniq: "unique_keys c"
    and key: "k \<noteq> []"
    and title: "t \<noteq> []"
  shows "fst (updatePageUrl k \<lparr>np_page = t, np_url = k, np_description = d\<rparr> c) =
           Inr \<lparr>page_id = k, page = t, description = d\<rparr>
         \<and> getPageById k
             (snd (updatePageUrl k \<lparr>np_page = t, np_url = k, np_description = d\<rparr> c)) =
             Some \<lparr>page_id = k, page = t, description = d\<rparr>
         \<and> (\<forall>k'. k' \<noteq> k \<longrightarrow>
               getPageById k'
                 (snd (updatePageUrl k \<lparr>np_page = t, np_url = k, np_description = d\<rparr> c)) =
               getPageById k' c)"
proof -
  let ?nd = "\<lparr>np_page = t, np_url = k, np_description = d\<rparr>"
  let ?new = "\<lparr>page_id = k, page = t, description = d\<rparr>"
  from old have o: "findById k c = Some a" by (simp add: getPageById_def)
  have gone: "findById k (remove_id k c) = None" by (rule findById_remove_same[OF uniq])
  then have nocc: "k \<notin> set (map page_id (remove_id k c))" by (simp add: findById_None_iff)
  have run: "updatePageUrl_run k ?nd c =
     (Inr ?new,
      [\<lparr>committed = c, working = c\<rparr>, \<lparr>committed = c, working = remove_id k c\<rparr>,
       \<lparr>committed = c, working = remove_id k c @ [?new]\<rparr>,
       \<lparr>committed = remove_id k c @ [?new], working = remove_id k c @ [?new]\<rparr>])"
    using run_Success[OF o, of ?nd] key title nocc by simp
  have g: "findById k (remove_id k c @ [?new]) = Some ?new"
    using gone by (simp add: findById_snoc)
  have other: "\<forall>k'. k' \<noteq> k \<longrightarrow> findById k' (remove_id k c @ [?new]) = findById k' c"
    by (simp add: findById_snoc findById_remove_other split: option.splits)
  show ?thesis using g other by (simp add: updatePageUrl_unfold run getPageById_def)
qed

theorem rename_same_key_witness:
  "fst (updatePageUrl ''a'' \<lparr>np_page = ''T'', np_url = ''a'', np_description = None\<rparr>
     [\<lparr>page_id = ''a'', page = ''A'', description = None\<rparr>,
      \<lparr>page_id = ''b'', page = ''B'', description = Some ''about b''\<rparr>]) =
     Inr \<lparr>page_id = ''a'', page = ''T'', description = None\<rparr>
   \<and> getPageById ''b'' (snd (updatePageUrl ''a'' \<lparr>np_page = ''T'', np_url = ''a'', np_description = None\<rparr>
     [\<lparr>page_id = ''a'', page = ''A'', description = None\<rparr>,
      \<lparr>page_id = ''b'', page = ''B'', description = Some ''about b''\<rparr>])) = Some \<lparr>page_id = ''b'', page = ''B'', description = Some ''about b''\<rparr>"
proof -
  have old: "getPageById ''a''
     [\<lparr>page_id = ''a'', page = ''A'', description = None\<rparr>,
      \<lparr>page_id = ''b'', page = ''B'', description = Some ''about b''\<rparr>] = Some \<lparr>page_id = ''a'', page = ''A'', description = None\<rparr>"
    by (simp add: getPageById_def findById_def)
  have occ: "getPageById ''b''
     [\<lparr>page_id = ''a'', page = ''A'', description = None\<rparr>,
      \<lparr>page_id = ''b'', page = ''B'', description = Some ''about b''\<rparr>] = Some \<lparr>page_id = ''b'', page = ''B'', description = Some ''about b''\<rparr>"
    by (simp add: getPageById_def findById_def)
  have uniq: "unique_keys
     [\<lparr>page_id = ''a'', page = ''A'', description = None\<rparr>,
      \<lparr>page_id = ''b'', page = ''B'', description = Some ''about b''\<rparr>]"
    by (simp add: unique_keys_def)
  have key: "''a'' \<noteq> []" by simp
  have title: "''T'' \<noteq> []" by simp
  have ne: "''b'' \<noteq> ''a''" by simp
  show ?thesis
    using rename_same_key[OF old uniq key title, of None] occ ne by simp
qed

end
